theory Spec2Isabelle
  imports Main "HOL-Library.Log_Nat"
begin

section \<open>Workflow copilot: the command interpreter of \<open>src/webapp/src/app/page.tsx\<close>\<close>

text \<open>
  The development embeds \<open>computeAssistant\<close> and the formatters it calls. JavaScript
  strings are modelled as \<open>string\<close>; the three characters of the source outside ASCII
  (bullet, em dash, arrow) are written as their UTF-8 bytes. \<open>trim\<close>, \<open>toLowerCase\<close>
  and the regular expressions are modelled on ASCII text: the white space is tab, line
  feed, vertical tab, form feed, carriage return and space, and the line terminators are
  line feed and carriage return.
\<close>

subsection \<open>Strings\<close>

definition nl :: string where
  "nl = [CHR 0x0A]"

definition bullet :: string where
  "bullet = [CHR 0xE2, CHR 0x80, CHR 0xA2]"

definition emDash :: string where
  "emDash = [CHR 0xE2, CHR 0x80, CHR 0x94]"

definition arrow :: string where
  "arrow = [CHR 0xE2, CHR 0x86, CHR 0x92]"

definition isWhiteSpace :: "char \<Rightarrow> bool" where
  "isWhiteSpace c = (c \<in> set [CHR 0x09, CHR 0x0A, CHR 0x0B, CHR 0x0C, CHR 0x0D, CHR '' ''])"

definition isLineTerminator :: "char \<Rightarrow> bool" where
  "isLineTerminator c = (c \<in> set [CHR 0x0A, CHR 0x0D])"

definition trim :: "string \<Rightarrow> string" where
  "trim s = rev (dropWhile isWhiteSpace (rev (dropWhile isWhiteSpace s)))"

definition toLowerChar :: "char \<Rightarrow> char" where
  "toLowerChar c =
     (let n = (of_char c :: nat) in if 65 \<le> n \<and> n \<le> 90 then char_of (n + 32) else c)"

definition toLowerCase :: "string \<Rightarrow> string" where
  "toLowerCase s = map toLowerChar s"

fun startsWith :: "string \<Rightarrow> string \<Rightarrow> bool" where
  "startsWith s [] = True"
| "startsWith [] (p # ps) = False"
| "startsWith (c # cs) (p # ps) = (c = p \<and> startsWith cs ps)"

fun includesStr :: "string \<Rightarrow> string \<Rightarrow> bool" where
  "includesStr [] p = (p = [])"
| "includesStr (c # cs) p = (startsWith (c # cs) p \<or> includesStr cs p)"

fun join :: "string \<Rightarrow> string list \<Rightarrow> string" where
  "join sep [] = []"
| "join sep [x] = x"
| "join sep (x # y # ys) = x @ sep @ join sep (y # ys)"

text \<open>\<open>.filter(Boolean)\<close> on an array of strings drops the empty ones.\<close>

definition filterBoolean :: "string list \<Rightarrow> string list" where
  "filterBoolean xs = filter (\<lambda>s. s \<noteq> []) xs"

text \<open>\<open>xs.slice(-3)\<close>: the last three elements, or all of them.\<close>

definition sliceLast3 :: "'a list \<Rightarrow> 'a list" where
  "sliceLast3 xs = drop (length xs - 3) xs"

text \<open>\<open>xs[i]\<close> is \<open>undefined\<close> outside \<open>0 \<le> i < xs.length\<close>.\<close>

definition elemAt :: "'a list \<Rightarrow> int \<Rightarrow> 'a option" where
  "elemAt xs i = (if 0 \<le> i \<and> i < int (length xs) then Some (xs ! nat i) else None)"

subsection \<open>Numbers\<close>

text \<open>
  The only arithmetic on doubles is \<open>Math.round((completed / total) * 100)\<close> on two
  array lengths. A number is a non-negative finite double (held as the rational it
  denotes), \<open>NaN\<close> or \<open>Infinity\<close>. \<open>toDouble\<close> rounds a non-negative rational to
  binary64: 53 significant bits, ties to even, exponent at least \<open>-1022\<close>.
\<close>

datatype number = Finite rat | NaN | PosInfinity

definition floorLog2 :: "rat \<Rightarrow> int" where
  "floorLog2 x =
     (let (n, d) = quotient_of x; k = bitlen n - bitlen d
      in if 2 powi k \<le> x then k else k - 1)"

definition roundTiesToEven :: "rat \<Rightarrow> int" where
  "roundTiesToEven q =
     (let f = \<lfloor>q\<rfloor>; r = q - of_int f
      in if r < 1 / 2 then f else if 1 / 2 < r then f + 1 else if even f then f else f + 1)"

definition toDouble :: "rat \<Rightarrow> rat" where
  "toDouble x =
     (if x \<le> 0 then 0
      else let e = max (floorLog2 x) (- 1022); ulp = 2 powi (e - 52)
           in of_int (roundTiesToEven (x / ulp)) * ulp)"

definition fromRat :: "rat \<Rightarrow> number" where
  "fromRat x = (let y = toDouble x in if 2 powi 1024 \<le> y then PosInfinity else Finite y)"

text \<open>\<open>c / t\<close> on two array lengths (integers below \<open>2^32\<close>, exact as doubles).\<close>

definition divideLengths :: "nat \<Rightarrow> nat \<Rightarrow> number" where
  "divideLengths c t =
     (if t = 0 then (if c = 0 then NaN else PosInfinity)
      else fromRat (of_nat c / of_nat t))"

fun times100 :: "number \<Rightarrow> number" where
  "times100 (Finite x) = fromRat (x * 100)"
| "times100 NaN = NaN"
| "times100 PosInfinity = PosInfinity"

text \<open>\<open>Math.round\<close>: the closest integer, a tie going up.\<close>

fun mathRound :: "number \<Rightarrow> number" where
  "mathRound (Finite x) = Finite (of_int \<lfloor>x + 1 / 2\<rfloor>)"
| "mathRound NaN = NaN"
| "mathRound PosInfinity = PosInfinity"

fun showNat :: "nat \<Rightarrow> string" where
  "showNat n =
     (if n < 10 then [char_of (48 + n)] else showNat (n div 10) @ [char_of (48 + n mod 10)])"

declare showNat.simps [simp del]

definition showInt :: "int \<Rightarrow> string" where
  "showInt i = (if i < 0 then CHR ''-'' # showNat (nat (- i)) else showNat (nat i))"

text \<open>Number to string, as a template literal does it, for the integers rendered here.\<close>

fun numberToString :: "number \<Rightarrow> string" where
  "numberToString (Finite x) = showInt \<lfloor>x\<rfloor>"
| "numberToString NaN = ''NaN''"
| "numberToString PosInfinity = ''Infinity''"

definition percent :: "nat \<Rightarrow> nat \<Rightarrow> number" where
  "percent c t = mathRound (times100 (divideLengths c t))"

subsection \<open>Data model\<close>

text \<open>
  Modelled from the spec: the type \<open>Workflow\<close> and its step type are declared in
  \<open>@/lib/workflows\<close>, which is not among the sources. The fields are those the spec's
  data model lists and \<open>page.tsx\<close> reads; \<open>duration\<close> and \<open>outputs\<close> are optional.
\<close>

record step =
  step_id :: string
  title :: string
  description :: string
  owner :: string
  duration :: "string option"
  outputs :: "string list option"

record workflow =
  wf_id :: string
  name :: string
  summary :: string
  metrics :: "string list"
  tags :: "string list"
  checklist :: "string list"
  resources :: "string list"
  steps :: "step list"

datatype role = Assistant | User

record message =
  msg_id :: string
  role :: role
  content :: string

text \<open>\<open>currentStepIndex\<close> is a JavaScript number; the model takes it as an integer.\<close>

record activeRun =
  workflow :: workflow
  currentStepIndex :: int
  completedStepIds :: "string list"
  startedAt :: string
  "notes" :: "string list"

datatype runStatus = Completed | Cancelled | InProgress

record runRecord =
  workflow_rec :: workflow
  startedAt_rec :: string
  completedAt :: string
  completedStepIds_rec :: "string list"
  notes_rec :: "string list"
  status :: runStatus

record assistantResult =
  replies :: "message list"
  nextRun :: "activeRun option"
  completedRun :: "runRecord option"

text \<open>Reading a property of \<open>undefined\<close> throws a \<open>TypeError\<close>.\<close>

datatype error = TypeError

subsection \<open>What the interpreter takes from outside\<close>

text \<open>
  The catalog module \<open>@/lib/workflows\<close> is not among the sources: its table
  \<open>WORKFLOWS\<close> and its functions \<open>getWorkflowByQuery\<close>, \<open>formatWorkflowHeadline\<close> and
  \<open>describeWorkflowSteps\<close> are parameters.
\<close>

record catalog =
  WORKFLOWS :: "workflow list"
  getWorkflowByQuery :: "string \<Rightarrow> workflow option"
  formatWorkflowHeadline :: "workflow \<Rightarrow> string"
  describeWorkflowSteps :: "workflow \<Rightarrow> string"

text \<open>
  The JavaScript runtime as one call of the interpreter sees it: \<open>createId k\<close> is what
  the \<open>k\<close>-th call of \<open>createId\<close> returns (\<open>crypto.randomUUID()\<close> or \<open>Math.random()\<close>),
  \<open>now k\<close> what the \<open>k\<close>-th \<open>new Date().toISOString()\<close> returns, counting from 0, and
  \<open>toLocaleString s\<close> renders \<open>new Date(s).toLocaleString()\<close> in the runtime's locale
  and time zone.
\<close>

record runtime =
  createId :: "nat \<Rightarrow> string"
  now :: "nat \<Rightarrow> string"
  toLocaleString :: "string \<Rightarrow> string"

definition createMessage :: "runtime \<Rightarrow> nat \<Rightarrow> role \<Rightarrow> string \<Rightarrow> message" where
  "createMessage rt k r c = \<lparr>msg_id = createId rt k, role = r, content = c\<rparr>"

subsection \<open>Formatters\<close>

definition formatWorkflowList :: "catalog \<Rightarrow> string" where
  "formatWorkflowList cat =
     join (nl @ nl)
       (map (\<lambda>wf. bullet @ '' '' @ name wf @ '' '' @ emDash @ '' '' @ summary wf @ nl
                    @ ''  Success metrics: '' @ join ''; '' (metrics wf))
            (WORKFLOWS cat))"

definition findWorkflowFromText :: "catalog \<Rightarrow> string \<Rightarrow> workflow option" where
  "findWorkflowFromText cat text =
     (let lower = toLowerCase text
      in case find (\<lambda>wf. includesStr lower (toLowerCase (name wf))) (WORKFLOWS cat) of
           Some direct \<Rightarrow> Some direct
         | None \<Rightarrow> getWorkflowByQuery cat text)"

definition formatActiveStep :: "activeRun \<Rightarrow> error + string" where
  "formatActiveStep run =
     (case elemAt (steps (workflow run)) (currentStepIndex run) of
        None \<Rightarrow> Inl TypeError
      | Some step \<Rightarrow>
          Inr (join nl (filterBoolean
            [''Step '' @ showInt (currentStepIndex run + 1) @ ''/''
               @ showNat (length (steps (workflow run))) @ '': '' @ title step,
             description step,
             ''Owner: '' @ owner step,
             (case duration step of
                Some d \<Rightarrow> if d \<noteq> [] then ''Timing: '' @ d else []
              | None \<Rightarrow> []),
             (case outputs step of
                Some os \<Rightarrow> if os \<noteq> [] then ''Expected outputs: '' @ join '', '' os else []
              | None \<Rightarrow> [])])))"

definition buildStatusMessage :: "activeRun \<Rightarrow> error + string" where
  "buildStatusMessage run =
     (let total = length (steps (workflow run));
          completed = length (completedStepIds run);
          progress = percent completed total
      in case elemAt (steps (workflow run)) (min (currentStepIndex run) (int total - 1)) of
           None \<Rightarrow> Inl TypeError
         | Some nextStep \<Rightarrow>
             Inr (join nl
               [name (workflow run) @ '' is '' @ numberToString progress @ ''% complete (''
                  @ showNat completed @ ''/'' @ showNat total @ '' steps).'',
                ''Current focus: '' @ title nextStep @ '' ('' @ owner nextStep @ '')'',
                description nextStep,
                (if notes run \<noteq> []
                 then ''Notes captured: '' @ join ('' '' @ bullet @ '' '') (sliceLast3 (notes run))
                 else ''Notes captured: none yet.'')]))"

text \<open>The \<open>header\<close> of \<open>formatRunSummary\<close>.\<close>

definition summaryHeader :: "runRecord \<Rightarrow> string" where
  \<open>summaryHeader record =
     (if status record = Completed
      then ''Workflow "'' @ name (workflow_rec record) @ ''" finished successfully.''
      else if status record = Cancelled
      then ''Workflow "'' @ name (workflow_rec record) @ ''" was cancelled.''
      else ''Workflow "'' @ name (workflow_rec record) @ ''" is still in progress.'')\<close>

definition formatRunSummary :: "runtime \<Rightarrow> runRecord \<Rightarrow> string" where
  "formatRunSummary rt record =
     (let total = length (steps (workflow_rec record));
          completedCount = length (completedStepIds_rec record);
          completedTitles =
            join ('' '' @ arrow @ '' '')
              (map title (List.map_filter
                 (\<lambda>stepId. find (\<lambda>step. step_id step = stepId) (steps (workflow_rec record)))
                 (completedStepIds_rec record)));
          header = summaryHeader record
      in join nl (filterBoolean
           [header,
            ''Started: '' @ toLocaleString rt (startedAt_rec record),
            (if status record = InProgress then ''Snapshot'' else ''Closed'') @ '': ''
              @ toLocaleString rt (completedAt record),
            ''Progress: '' @ showNat completedCount @ ''/'' @ showNat total @ '' steps (''
              @ numberToString (percent completedCount total) @ ''%)'',
            ''Steps completed: '' @ (if completedTitles \<noteq> [] then completedTitles else ''none''),
            (if notes_rec record \<noteq> []
             then ''Captured notes:'' @ nl @ bullet @ '' '' @ join (nl @ bullet @ '' '') (notes_rec record)
             else ''No notes were captured during this run.'')]))"

definition deriveQuickActions :: "activeRun option \<Rightarrow> error + string list" where
  "deriveQuickActions run =
     (case run of
        None \<Rightarrow>
          Inr [''List workflows'', ''Start Employee Onboarding'', ''Start Incident Response'',
               ''Show details for Feature Launch'']
      | Some r \<Rightarrow>
          (case elemAt (steps (workflow r)) (currentStepIndex r) of
             None \<Rightarrow> Inl TypeError
           | Some currentStep \<Rightarrow>
               Inr [''Complete '' @ title currentStep, ''Show status'',
                    ''Add note: Blocker identified with current step'', ''Export summary'']))"


subsection \<open>Note extraction\<close>

text \<open>
  \<open>trimmed.match(/note[:\-]?\s*(.+)$/i) ?? trimmed.match(/add\s+note\s+(.*)$/i)\<close>:
  each function below is one piece of a pattern and returns the captured group of the
  first successful path of the backtracking matcher (a greedy quantifier tries its
  longest match first). \<open>$\<close> is the end of the input, and \<open>.\<close> is any character
  but a line terminator.
\<close>

text \<open>\<open>(.+)$\<close>\<close>

definition matchDotPlus :: "string \<Rightarrow> string option" where
  "matchDotPlus s = (if s \<noteq> [] \<and> (\<forall>c \<in> set s. \<not> isLineTerminator c) then Some s else None)"

text \<open>\<open>(.*)$\<close>\<close>

definition matchDotStar :: "string \<Rightarrow> string option" where
  "matchDotStar s = (if \<forall>c \<in> set s. \<not> isLineTerminator c then Some s else None)"

text \<open>\<open>\s*(.+)$\<close>\<close>

fun matchSpacesDotPlus :: "string \<Rightarrow> string option" where
  "matchSpacesDotPlus [] = None"
| "matchSpacesDotPlus (c # cs) =
     (if isWhiteSpace c
      then (case matchSpacesDotPlus cs of Some g \<Rightarrow> Some g | None \<Rightarrow> matchDotPlus (c # cs))
      else matchDotPlus (c # cs))"

text \<open>\<open>\s*(.*)$\<close>\<close>

fun matchSpacesDotStar :: "string \<Rightarrow> string option" where
  "matchSpacesDotStar [] = matchDotStar []"
| "matchSpacesDotStar (c # cs) =
     (if isWhiteSpace c
      then (case matchSpacesDotStar cs of Some g \<Rightarrow> Some g | None \<Rightarrow> matchDotStar (c # cs))
      else matchDotStar (c # cs))"

text \<open>\<open>[:\-]?\s*(.+)$\<close>, after an occurrence of \<open>note\<close>\<close>

fun matchAfterNote :: "string \<Rightarrow> string option" where
  "matchAfterNote [] = None"
| "matchAfterNote (c # cs) =
     (if c = CHR '':'' \<or> c = CHR ''-''
      then (case matchSpacesDotPlus cs of
              Some g \<Rightarrow> Some g
            | None \<Rightarrow> matchSpacesDotPlus (c # cs))
      else matchSpacesDotPlus (c # cs))"

text \<open>\<open>/note[:\-]?\s*(.+)$/i\<close>: the leftmost position where the pattern matches.\<close>

fun matchNote :: "string \<Rightarrow> string option" where
  "matchNote [] = None"
| "matchNote (c # cs) =
     (if startsWith (toLowerCase (c # cs)) ''note''
      then (case matchAfterNote (drop 4 (c # cs)) of
              Some g \<Rightarrow> Some g
            | None \<Rightarrow> matchNote cs)
      else matchNote cs)"

text \<open>
  \<open>\s+note\s+(.*)$\<close>, after an occurrence of \<open>add\<close>: the first \<open>\s+\<close> can only end
  where the white space ends, since \<open>note\<close> starts with a letter.
\<close>

definition matchAfterAdd :: "string \<Rightarrow> string option" where
  "matchAfterAdd s =
     (let rest = dropWhile isWhiteSpace s
      in if takeWhile isWhiteSpace s \<noteq> [] \<and> startsWith (toLowerCase rest) ''note''
         then (case drop 4 rest of
                 [] \<Rightarrow> None
               | c # cs \<Rightarrow> if isWhiteSpace c then matchSpacesDotStar cs else None)
         else None)"

text \<open>\<open>/add\s+note\s+(.*)$/i\<close>\<close>

fun matchAddNote :: "string \<Rightarrow> string option" where
  "matchAddNote [] = None"
| "matchAddNote (c # cs) =
     (if startsWith (toLowerCase (c # cs)) ''add''
      then (case matchAfterAdd (drop 3 (c # cs)) of
              Some g \<Rightarrow> Some g
            | None \<Rightarrow> matchAddNote cs)
      else matchAddNote cs)"

text \<open>\<open>match?.[1]?.trim()\<close>\<close>

definition extractNote :: "string \<Rightarrow> string option" where
  "extractNote trimmed =
     (case (case matchNote trimmed of Some g \<Rightarrow> Some g | None \<Rightarrow> matchAddNote trimmed) of
        Some g \<Rightarrow> Some (trim g)
      | None \<Rightarrow> None)"

subsection \<open>The interpreter\<close>

definition reply :: "runtime \<Rightarrow> message list \<Rightarrow> string \<Rightarrow> message list" where
  "reply rt rs c = rs @ [createMessage rt (length rs) Assistant c]"

definition noActiveRunText :: string where
  \<open>noActiveRunText =
     ''There isn't an active workflow run yet. Start one with commands like "Start Employee Onboarding" or ask for "List workflows" to explore.''\<close>

definition idleText :: string where
  "idleText = ''I'll wait here'' @ emDash @ ''type a workflow command whenever you're ready.''"

definition capabilityText :: string where
  \<open>capabilityText =
     ''I'm your workflow copilot. Ask me to list workflows, start a run, complete steps, capture notes, or export a summary. You can say things like "Start Incident Response" or "Complete the current step".''\<close>

definition detailsNotFoundText :: string where
  \<open>detailsNotFoundText =
     ''I couldn't match that workflow. Try "Show details for Incident Response" or ask me to "List workflows".''\<close>

definition startNotFoundText :: string where
  \<open>startNotFoundText =
     ''I couldn't find that workflow. Ask for "List workflows" to see the available playbooks.''\<close>

definition detailsText :: "catalog \<Rightarrow> workflow \<Rightarrow> string" where
  "detailsText cat target =
     formatWorkflowHeadline cat target @ nl @ nl @ ''Summary: '' @ summary target @ nl @ nl
     @ ''Steps:'' @ nl @ describeWorkflowSteps cat target @ nl @ nl
     @ ''Readiness checklist:'' @ nl @ bullet @ '' ''
     @ join (nl @ bullet @ '' '') (checklist target) @ nl @ nl
     @ ''Resources:'' @ nl @ bullet @ '' '' @ join (nl @ bullet @ '' '') (resources target)"

text \<open>The conditions of the \<open>if\<close> chain, in the order of the source.\<close>

definition isGreeting :: "string \<Rightarrow> bool" where
  "isGreeting lower =
     (lower = ''hi'' \<or> lower = ''hello'' \<or> lower = ''hey'' \<or> includesStr lower ''help'')"

definition isList :: "string \<Rightarrow> bool" where
  "isList lower =
     (includesStr lower ''list workflows'' \<or> lower = ''list''
      \<or> includesStr lower ''show workflows'' \<or> includesStr lower ''catalog'')"

definition isDetails :: "string \<Rightarrow> bool" where
  "isDetails lower =
     (includesStr lower ''details'' \<or> includesStr lower ''show''
      \<or> includesStr lower ''tell me about'')"

definition isStart :: "string \<Rightarrow> bool" where
  "isStart lower =
     (includesStr lower ''start '' \<or> startsWith lower ''run '' \<or> startsWith lower ''kick''
      \<or> includesStr lower ''launch'')"

definition isAdvance :: "string \<Rightarrow> bool" where
  "isAdvance lower =
     (includesStr lower ''complete'' \<or> startsWith lower ''next''
      \<or> includesStr lower ''advance'' \<or> includesStr lower ''done'')"

definition isStatus :: "string \<Rightarrow> bool" where
  "isStatus lower =
     (includesStr lower ''status'' \<or> includesStr lower ''progress''
      \<or> includesStr lower ''where are we'' \<or> includesStr lower ''how far'')"

definition isNote :: "string \<Rightarrow> bool" where
  "isNote lower = includesStr lower ''note''"

definition isCancel :: "string \<Rightarrow> bool" where
  "isCancel lower =
     (includesStr lower ''cancel'' \<or> includesStr lower ''stop run''
      \<or> includesStr lower ''abort'')"

definition isExport :: "string \<Rightarrow> bool" where
  "isExport lower = (includesStr lower ''export'' \<or> includesStr lower ''summary'')"

definition isBack :: "string \<Rightarrow> bool" where
  "isBack lower = (includesStr lower ''previous step'' \<or> includesStr lower ''go back'')"

text \<open>
  Each handler is the body of one \<open>if\<close> of \<open>computeAssistant\<close>. It takes the replies
  pushed so far and the working copy \<open>nextRun\<close> of the run; \<open>completedRun\<close> is still
  undefined when a handler is entered. \<open>ensureActive\<close> is the first case of each handler
  that needs a run.
\<close>

definition startHandler ::
  "catalog \<Rightarrow> runtime \<Rightarrow> string \<Rightarrow> message list \<Rightarrow> activeRun option
     \<Rightarrow> error + assistantResult" where
  \<open>startHandler cat rt trimmed rs nextRun0 =
     (case findWorkflowFromText cat trimmed of
        None \<Rightarrow>
          Inr \<lparr>replies = reply rt rs startNotFoundText, nextRun = nextRun0, completedRun = None\<rparr>
      | Some target \<Rightarrow>
          (let closed =
                 (case nextRun0 of
                    None \<Rightarrow> None
                  | Some run \<Rightarrow>
                      if wf_id (workflow run) \<noteq> wf_id target
                      then Some \<lparr>workflow_rec = workflow run,
                                 startedAt_rec = startedAt run,
                                 completedAt = now rt 0,
                                 completedStepIds_rec = completedStepIds run,
                                 notes_rec = notes run
                                   @ [''Automatically closed when a new workflow started.''],
                                 status = Cancelled\<rparr>
                      else None);
               fresh = \<lparr>workflow = target, currentStepIndex = 0, completedStepIds = [],
                        startedAt = now rt (if closed = None then 0 else 1), notes = []\<rparr>
           in case formatActiveStep fresh of
                Inl e \<Rightarrow> Inl e
              | Inr stepText \<Rightarrow>
                  Inr \<lparr>replies = reply rt rs
                         (''Starting "'' @ name target @ ''". Here's the first checkpoint:'' @ nl @ nl
                          @ stepText @ nl @ nl
                          @ ''Need context on later steps? Ask for "Show status" at any time.''),
                       nextRun = Some fresh, completedRun = closed\<rparr>))\<close>

definition advanceHandler ::
  "runtime \<Rightarrow> message list \<Rightarrow> activeRun option \<Rightarrow> error + assistantResult" where
  \<open>advanceHandler rt rs nextRun0 =
     (case nextRun0 of
        None \<Rightarrow> Inr \<lparr>replies = reply rt rs noActiveRunText, nextRun = None, completedRun = None\<rparr>
      | Some run \<Rightarrow>
          (let totalSteps = length (steps (workflow run))
           in case elemAt (steps (workflow run)) (currentStepIndex run) of
                None \<Rightarrow> Inl TypeError
              | Some currentStep \<Rightarrow>
                  if step_id currentStep \<in> set (completedStepIds run)
                  then Inr \<lparr>replies = reply rt rs
                              (''Step "'' @ title currentStep
                               @ ''" is already marked complete. Ask for "Show status" to review what's next.''),
                            nextRun = Some run, completedRun = None\<rparr>
                  else
                    (let run1 = run\<lparr>completedStepIds := completedStepIds run @ [step_id currentStep]\<rparr>
                     in if int totalSteps - 1 \<le> currentStepIndex run1
                        then
                          (let closed = \<lparr>workflow_rec = workflow run1,
                                         startedAt_rec = startedAt run1,
                                         completedAt = now rt 0,
                                         completedStepIds_rec = completedStepIds run1,
                                         notes_rec = notes run1,
                                         status = Completed\<rparr>
                           in Inr \<lparr>replies = reply rt rs
                                    (''Nice work! "'' @ name (workflow run1) @ ''" is fully complete.''
                                     @ nl @ nl @ formatRunSummary rt closed),
                                  nextRun = None, completedRun = Some closed\<rparr>)
                        else
                          (let run2 = run1\<lparr>currentStepIndex := currentStepIndex run1 + 1\<rparr>
                           in case formatActiveStep run2 of
                                Inl e \<Rightarrow> Inl e
                              | Inr stepText \<Rightarrow>
                                  Inr \<lparr>replies = reply rt rs
                                         (''Marked "'' @ title currentStep @ ''" complete. Up next:''
                                          @ nl @ nl @ stepText),
                                       nextRun = Some run2, completedRun = None\<rparr>))))\<close>

definition statusHandler ::
  "runtime \<Rightarrow> message list \<Rightarrow> activeRun option \<Rightarrow> error + assistantResult" where
  "statusHandler rt rs nextRun0 =
     (case nextRun0 of
        None \<Rightarrow> Inr \<lparr>replies = reply rt rs noActiveRunText, nextRun = None, completedRun = None\<rparr>
      | Some run \<Rightarrow>
          (case buildStatusMessage run of
             Inl e \<Rightarrow> Inl e
           | Inr statusText \<Rightarrow>
               Inr \<lparr>replies = reply rt rs statusText, nextRun = Some run, completedRun = None\<rparr>))"

definition noteHandler ::
  "runtime \<Rightarrow> string \<Rightarrow> message list \<Rightarrow> activeRun option \<Rightarrow> error + assistantResult" where
  \<open>noteHandler rt trimmed rs nextRun0 =
     (case nextRun0 of
        None \<Rightarrow> Inr \<lparr>replies = reply rt rs noActiveRunText, nextRun = None, completedRun = None\<rparr>
      | Some run \<Rightarrow>
          (case extractNote trimmed of
             Some (c # cs) \<Rightarrow>
               (let note = c # cs; run1 = run\<lparr>notes := notes run @ [note]\<rparr>
                in Inr \<lparr>replies = reply rt rs
                         (''Captured note on "'' @ name (workflow run1) @ ''": '' @ note @ nl
                          @ ''Ask for "Show status" to view the latest context.''),
                       nextRun = Some run1, completedRun = None\<rparr>)
           | _ \<Rightarrow>
               Inr \<lparr>replies = reply rt rs
                      ''To add a note, try "Add note: waiting on security review".'',
                    nextRun = Some run, completedRun = None\<rparr>))\<close>

definition cancelHandler ::
  "runtime \<Rightarrow> message list \<Rightarrow> activeRun option \<Rightarrow> error + assistantResult" where
  \<open>cancelHandler rt rs nextRun0 =
     (case nextRun0 of
        None \<Rightarrow> Inr \<lparr>replies = reply rt rs noActiveRunText, nextRun = None, completedRun = None\<rparr>
      | Some run \<Rightarrow>
          (let closed = \<lparr>workflow_rec = workflow run,
                         startedAt_rec = startedAt run,
                         completedAt = now rt 0,
                         completedStepIds_rec = completedStepIds run,
                         notes_rec = notes run @ [''Run cancelled before completion.''],
                         status = Cancelled\<rparr>
           in Inr \<lparr>replies = reply rt rs
                    (''Stopped "'' @ name (workflow run) @ ''".'' @ nl @ nl
                     @ formatRunSummary rt closed),
                  nextRun = None, completedRun = Some closed\<rparr>))\<close>

text \<open>The snapshot that the export renders; it is not returned.\<close>

definition exportRecord :: "runtime \<Rightarrow> activeRun \<Rightarrow> runRecord" where
  "exportRecord rt run =
     \<lparr>workflow_rec = workflow run,
      startedAt_rec = startedAt run,
      completedAt = now rt 0,
      completedStepIds_rec = completedStepIds run,
      notes_rec = notes run,
      status = (if length (completedStepIds run) = length (steps (workflow run))
                then Completed else InProgress)\<rparr>"

definition exportHandler ::
  "runtime \<Rightarrow> message list \<Rightarrow> activeRun option \<Rightarrow> error + assistantResult" where
  "exportHandler rt rs nextRun0 =
     (case nextRun0 of
        None \<Rightarrow> Inr \<lparr>replies = reply rt rs noActiveRunText, nextRun = None, completedRun = None\<rparr>
      | Some run \<Rightarrow>
          Inr \<lparr>replies = reply rt rs (formatRunSummary rt (exportRecord rt run)),
               nextRun = Some run, completedRun = None\<rparr>)"

definition backHandler ::
  "runtime \<Rightarrow> message list \<Rightarrow> activeRun option \<Rightarrow> error + assistantResult" where
  "backHandler rt rs nextRun0 =
     (case nextRun0 of
        None \<Rightarrow> Inr \<lparr>replies = reply rt rs noActiveRunText, nextRun = None, completedRun = None\<rparr>
      | Some run \<Rightarrow>
          if currentStepIndex run = 0
          then Inr \<lparr>replies = reply rt rs ''You're already at the first step of this workflow.'',
                    nextRun = Some run, completedRun = None\<rparr>
          else
            (let run1 = run\<lparr>currentStepIndex := currentStepIndex run - 1\<rparr>
             in case formatActiveStep run1 of
                  Inl e \<Rightarrow> Inl e
                | Inr stepText \<Rightarrow>
                    Inr \<lparr>replies = reply rt rs (''Revisiting:'' @ nl @ nl @ stepText),
                         nextRun = Some run1, completedRun = None\<rparr>))"

definition fallbackText :: "string \<Rightarrow> string" where
  \<open>fallbackText trimmed =
     ''I'm not sure how to help with "'' @ trimmed
     @ ''". Try commands like "List workflows", "Start Incident Response", "Complete current step", or "Add note: waiting on finance".''\<close>

text \<open>
  The rest of \<open>computeAssistant\<close> from the start commands on (line 233 to the end):
  what runs when the details block has not returned.
\<close>

definition afterDetails ::
  "catalog \<Rightarrow> runtime \<Rightarrow> string \<Rightarrow> string \<Rightarrow> message list \<Rightarrow> activeRun option
     \<Rightarrow> error + assistantResult" where
  "afterDetails cat rt trimmed lower rs nextRun0 =
     (if isStart lower then startHandler cat rt trimmed rs nextRun0
      else if isAdvance lower then advanceHandler rt rs nextRun0
      else if isStatus lower then statusHandler rt rs nextRun0
      else if isNote lower then noteHandler rt trimmed rs nextRun0
      else if isCancel lower then cancelHandler rt rs nextRun0
      else if isExport lower then exportHandler rt rs nextRun0
      else if isBack lower then backHandler rt rs nextRun0
      else Inr \<lparr>replies = reply rt rs (fallbackText trimmed), nextRun = nextRun0,
                completedRun = None\<rparr>)"

definition computeAssistant ::
  "catalog \<Rightarrow> runtime \<Rightarrow> string \<Rightarrow> activeRun option \<Rightarrow> error + assistantResult" where
  "computeAssistant cat rt input activeRun0 =
     (let trimmed = trim input; lower = toLowerCase trimmed; nextRun0 = activeRun0
      in if trimmed = []
         then Inr \<lparr>replies = reply rt [] idleText, nextRun = nextRun0, completedRun = None\<rparr>
         else if isGreeting lower
         then Inr \<lparr>replies = reply rt [] capabilityText, nextRun = nextRun0,
                   completedRun = None\<rparr>
         else if isList lower
         then Inr \<lparr>replies = reply rt []
                     (''Here are the available playbooks:'' @ nl @ nl @ formatWorkflowList cat),
                   nextRun = nextRun0, completedRun = None\<rparr>
         else if isDetails lower
         then (case findWorkflowFromText cat trimmed of
                 Some target \<Rightarrow>
                   Inr \<lparr>replies = reply rt [] (detailsText cat target), nextRun = nextRun0,
                        completedRun = None\<rparr>
               | None \<Rightarrow>
                   if includesStr lower ''workflow''
                   then afterDetails cat rt trimmed lower (reply rt [] detailsNotFoundText) nextRun0
                   else afterDetails cat rt trimmed lower [] nextRun0)
         else afterDetails cat rt trimmed lower [] nextRun0)"

text \<open>
  The caller (\<open>sendMessage\<close> of the page component) hands each call the \<open>nextRun\<close> of
  the call before: the results of successive calls, each with its own runtime readings.
  A call that throws leaves the run as it was.
\<close>

fun session ::
  "catalog \<Rightarrow> (runtime \<times> string) list \<Rightarrow> activeRun option \<Rightarrow> (error + assistantResult) list" where
  "session cat [] run = []"
| "session cat ((rt, input) # cmds) run =
     (let res = computeAssistant cat rt input run
      in res # session cat cmds (case res of Inl e \<Rightarrow> run | Inr r \<Rightarrow> nextRun r))"


subsection \<open>A small catalog and runtime for concrete runs\<close>

definition mkStep :: "string \<Rightarrow> string \<Rightarrow> step" where
  "mkStep i t =
     \<lparr>step_id = i, title = t, description = ''Do it'', owner = ''Ops'', duration = None,
      outputs = None\<rparr>"

definition onboarding :: workflow where
  "onboarding =
     \<lparr>wf_id = ''employee-onboarding'', name = ''Employee Onboarding'', summary = ''Welcome'',
      metrics = [], tags = [], checklist = [], resources = [],
      steps = [mkStep ''prep'' ''Prepare'', mkStep ''day1'' ''First day'']\<rparr>"

definition incident :: workflow where
  "incident =
     \<lparr>wf_id = ''incident-response'', name = ''Incident Response'', summary = ''Restore'',
      metrics = [], tags = [], checklist = [], resources = [],
      steps = [mkStep ''triage'' ''Triage'', mkStep ''fix'' ''Mitigate'',
               mkStep ''review'' ''Review'']\<rparr>"

definition demoCatalog :: catalog where
  "demoCatalog =
     \<lparr>WORKFLOWS = [onboarding, incident], getWorkflowByQuery = (\<lambda>q. None),
      formatWorkflowHeadline = name, describeWorkflowSteps = (\<lambda>wf. join nl (map title (steps wf)))\<rparr>"

definition demoRuntime :: runtime where
  "demoRuntime =
     \<lparr>createId = (\<lambda>k. ''id-'' @ showNat k), now = (\<lambda>k. ''2024-01-01T00:00:0'' @ showNat k @ ''Z''),
      toLocaleString = (\<lambda>s. s)\<rparr>"

definition otherRuntime :: runtime where
  "otherRuntime = demoRuntime\<lparr>createId := (\<lambda>k. ''uuid-'' @ showNat k)\<rparr>"

definition freshRun :: "workflow \<Rightarrow> string \<Rightarrow> activeRun" where
  "freshRun w t =
     \<lparr>workflow = w, currentStepIndex = 0, completedStepIds = [], startedAt = t, notes = []\<rparr>"




definition busyRun :: activeRun where
  "busyRun =
     \<lparr>workflow = onboarding, currentStepIndex = 1, completedStepIds = [''prep''],
      startedAt = ''2023-12-31T09:00:00Z'', notes = [''badge ordered'']\<rparr>"

subsection \<open>Notions of the specification\<close>

text \<open>
  The category of an input, as the specification orders them (the first match wins),
  with the conditions of the source.
\<close>

datatype category =
  Empty | Greeting | ListCatalog | Details | Start | Advance | Status | Note | Cancel
  | Export | Back | Fallback

definition classify :: "string \<Rightarrow> category" where
  "classify input =
     (let trimmed = trim input; lower = toLowerCase trimmed
      in if trimmed = [] then Empty
         else if isGreeting lower then Greeting
         else if isList lower then ListCatalog
         else if isDetails lower then Details
         else if isStart lower then Start
         else if isAdvance lower then Advance
         else if isStatus lower then Status
         else if isNote lower then Note
         else if isCancel lower then Cancel
         else if isExport lower then Export
         else if isBack lower then Back
         else Fallback)"

text \<open>The words of a text: its maximal runs of characters that are not white space.\<close>

fun tokensFrom :: "string \<Rightarrow> string \<Rightarrow> string list" where
  "tokensFrom cur [] = (if cur = [] then [] else [cur])"
| "tokensFrom cur (c # cs) =
     (if isWhiteSpace c
      then (if cur = [] then tokensFrom [] cs else cur # tokensFrom [] cs)
      else tokensFrom (cur @ [c]) cs)"

definition hasToken :: "string \<Rightarrow> string \<Rightarrow> bool" where
  "hasToken text w = (w \<in> set (tokensFrom [] text))"

text \<open>The index invariant of an active run: \<open>0 \<le> currentStepIndex < steps.length\<close>.\<close>

definition indexInRange :: "activeRun \<Rightarrow> bool" where
  "indexInRange run =
     (0 \<le> currentStepIndex run \<and> currentStepIndex run < int (length (steps (workflow run))))"

text \<open>
  The catalog as the specification describes it: every workflow has at least one step,
  and the lookup by query returns workflows of the catalog.
\<close>

definition catalogWellFormed :: "catalog \<Rightarrow> bool" where
  "catalogWellFormed cat =
     ((\<forall>w \<in> set (WORKFLOWS cat). steps w \<noteq> [])
      \<and> (\<forall>q w. getWorkflowByQuery cat q = Some w \<longrightarrow> w \<in> set (WORKFLOWS cat)))"


text \<open>A result without the ids of its messages.\<close>

definition withoutIds :: "assistantResult \<Rightarrow> assistantResult" where
  "withoutIds res = res\<lparr>replies := map (\<lambda>m. m\<lparr>msg_id := []\<rparr>) (replies res)\<rparr>"

text \<open>Two reply lists that differ at most in the ids of their messages.\<close>

definition sameUpToIds :: "message list \<Rightarrow> message list \<Rightarrow> bool" where
  "sameUpToIds rs1 rs2 =
     (map (\<lambda>m. m\<lparr>msg_id := []\<rparr>) rs1 = map (\<lambda>m. m\<lparr>msg_id := []\<rparr>) rs2)"

text \<open>A call that returns, and whose next run, if any, has its index in range.\<close>

definition keepsIndex :: "error + assistantResult \<Rightarrow> bool" where
  "keepsIndex out =
     (\<exists>res. out = Inr res \<and> (\<forall>r'. nextRun res = Some r' \<longrightarrow> indexInRange r'))"

text \<open>
  The run of a workflow, started at \<open>t\<close>, after its first \<open>k\<close> steps were completed in
  order and nothing else was done.
\<close>

definition runAfter :: "workflow \<Rightarrow> string \<Rightarrow> nat \<Rightarrow> activeRun" where
  "runAfter w t k =
     \<lparr>workflow = w, currentStepIndex = int k,
      completedStepIds = map step_id (take k (steps w)), startedAt = t, notes = []\<rparr>"

section \<open>Properties\<close>

subsection \<open>Dispatch\<close>

lemma classify_Advance:
  "classify input = Advance \<Longrightarrow>
     computeAssistant cat rt input run = advanceHandler rt [] run"
  by (simp add: classify_def computeAssistant_def afterDetails_def Let_def split: if_splits)

lemma classify_Start:
  "classify input = Start \<Longrightarrow>
     computeAssistant cat rt input run = startHandler cat rt (trim input) [] run"
  by (simp add: classify_def computeAssistant_def afterDetails_def Let_def split: if_splits)

lemma classify_Export:
  "classify input = Export \<Longrightarrow>
     computeAssistant cat rt input run = exportHandler rt [] run"
  by (simp add: classify_def computeAssistant_def afterDetails_def Let_def split: if_splits)

lemma reply_Nil: "reply rt [] c = [createMessage rt 0 Assistant c]"
  by (simp add: reply_def)

subsection \<open>Completing a step that is already complete\<close>

text \<open>
  Claim C3. For every active run whose current step's id is already in
  \<open>completedStepIds\<close>, an advance/complete command changes nothing: the returned
  \<open>nextRun\<close> is the input run (same index, same \<open>completedStepIds\<close> with nothing
  appended, same notes), there is no closed run, and the only reply is the informational
  one.
\<close>

theorem recomplete_is_noop:
  assumes "classify input = Advance"
    and "elemAt (steps (workflow run)) (currentStepIndex run) = Some s"
    and "step_id s \<in> set (completedStepIds run)"
  shows "computeAssistant cat rt input (Some run) =
           Inr \<lparr>replies = [createMessage rt 0 Assistant
                    (''Step \"'' @ title s
                     @ ''\" is already marked complete. Ask for \"Show status\" to review what's next.'')],
                nextRun = Some run, completedRun = None\<rparr>"
  using assms by (simp add: classify_Advance advanceHandler_def reply_Nil)

theorem recomplete_is_noop_witness:
  "classify ''Complete the current step'' = Advance
   \<and> elemAt (steps (workflow ((freshRun onboarding ''t'')\<lparr>completedStepIds := [''prep'']\<rparr>)))
        (currentStepIndex ((freshRun onboarding ''t'')\<lparr>completedStepIds := [''prep'']\<rparr>))
      = Some (mkStep ''prep'' ''Prepare'')
   \<and> computeAssistant demoCatalog demoRuntime ''Complete the current step''
        (Some ((freshRun onboarding ''t'')\<lparr>completedStepIds := [''prep'']\<rparr>)) =
       Inr \<lparr>replies = [createMessage demoRuntime 0 Assistant
                (''Step \"'' @ title (mkStep ''prep'' ''Prepare'')
                 @ ''\" is already marked complete. Ask for \"Show status\" to review what's next.'')],
            nextRun = Some ((freshRun onboarding ''t'')\<lparr>completedStepIds := [''prep'']\<rparr>),
            completedRun = None\<rparr>"
proof -
  let ?run = "(freshRun onboarding ''t'')\<lparr>completedStepIds := [''prep'']\<rparr>"
  have c: "classify ''Complete the current step'' = Advance"
    by code_simp
  have e: "elemAt (steps (workflow ?run)) (currentStepIndex ?run) = Some (mkStep ''prep'' ''Prepare'')"
    by (simp add: freshRun_def onboarding_def elemAt_def)
  have m: "step_id (mkStep ''prep'' ''Prepare'') \<in> set (completedStepIds ?run)"
    by (simp add: mkStep_def)
  show ?thesis
    using c e recomplete_is_noop [OF c e m, of demoCatalog demoRuntime] by simp
qed

subsection \<open>Helper facts on the formatters\<close>

lemma elemAt_0: "xs \<noteq> [] \<Longrightarrow> elemAt xs 0 = Some (hd xs)"
  by (cases xs) (simp_all add: elemAt_def)

lemma formatActiveStep_Inr:
  "elemAt (steps (workflow run)) (currentStepIndex run) = Some st \<Longrightarrow>
     \<exists>str. formatActiveStep run = Inr str"
  by (simp add: formatActiveStep_def)

lemma startsWith_append: "startsWith (p @ s) p"
  by (induction p) simp_all

lemma join_Cons: "\<exists>r. join sep (x # xs) = x @ r"
  by (cases xs) simp_all

subsection \<open>Starting a workflow while a run is active\<close>

text \<open>
  Claim C1. For every call with an input classified as start that resolves to a
  workflow \<open>b\<close>, while a run of a different workflow is active, the one call returns a
  closed run for the old workflow with status cancelled, whose notes end with
  "Automatically closed when a new workflow started.", and a next run for \<open>b\<close> at step
  index 0 with no completed steps and no notes. The target has at least one step, as
  every workflow of the data model has; workflows are told apart by their id, as the
  source does.
\<close>

theorem start_supersedes_other_workflow:
  assumes "classify input = Start"
    and "findWorkflowFromText cat (trim input) = Some b"
    and "wf_id (workflow a) \<noteq> wf_id b"
    and "steps b \<noteq> []"
  shows "\<exists>res closed next.
           computeAssistant cat rt input (Some a) = Inr res
           \<and> completedRun res = Some closed
           \<and> workflow_rec closed = workflow a
           \<and> status closed = Cancelled
           \<and> completedStepIds_rec closed = completedStepIds a
           \<and> notes_rec closed = notes a @ [''Automatically closed when a new workflow started.'']
           \<and> nextRun res = Some next
           \<and> workflow next = b
           \<and> currentStepIndex next = 0
           \<and> completedStepIds next = []
           \<and> notes next = []"
proof -
  let ?fresh = "\<lparr>workflow = b, currentStepIndex = 0, completedStepIds = [],
                  startedAt = now rt 1, notes = []\<rparr>"
  from assms(4) have "elemAt (steps (workflow ?fresh)) (currentStepIndex ?fresh) = Some (hd (steps b))"
    by (simp add: elemAt_0)
  then obtain str where "formatActiveStep ?fresh = Inr str"
    using formatActiveStep_Inr by blast
  with assms(1,2,3) show ?thesis
    by (simp add: classify_Start startHandler_def)
qed

theorem start_supersedes_other_workflow_witness:
  "classify ''Start Incident Response'' = Start
   \<and> findWorkflowFromText demoCatalog (trim ''Start Incident Response'') = Some incident
   \<and> wf_id (workflow busyRun) \<noteq> wf_id incident
   \<and> steps incident \<noteq> []
   \<and> (\<exists>res closed next.
           computeAssistant demoCatalog demoRuntime ''Start Incident Response'' (Some busyRun) = Inr res
           \<and> completedRun res = Some closed
           \<and> workflow_rec closed = workflow busyRun
           \<and> status closed = Cancelled
           \<and> completedStepIds_rec closed = completedStepIds busyRun
           \<and> notes_rec closed = notes busyRun @ [''Automatically closed when a new workflow started.'']
           \<and> nextRun res = Some next
           \<and> workflow next = incident
           \<and> currentStepIndex next = 0
           \<and> completedStepIds next = []
           \<and> notes next = [])"
proof -
  have c: "classify ''Start Incident Response'' = Start"
    by code_simp
  have f: "findWorkflowFromText demoCatalog (trim ''Start Incident Response'') = Some incident"
    by code_simp
  have d: "wf_id (workflow busyRun) \<noteq> wf_id incident"
    by (simp add: busyRun_def onboarding_def incident_def)
  have n: "steps incident \<noteq> []"
    by (simp add: incident_def)
  show ?thesis
    using c f d n start_supersedes_other_workflow [OF c f d n, of demoRuntime] by simp
qed

text \<open>
  Claim C10. For every start command that resolves to the workflow of the active run,
  the run is reset: the next run is a fresh one at step index 0 with no completed
  steps, no notes and a new \<open>startedAt\<close>, and no closed run is produced. The whole result
  is the one the same command gives when no run is active, so the old progress appears
  nowhere in it.
\<close>

theorem restart_same_workflow_resets:
  assumes "classify input = Start"
    and "findWorkflowFromText cat (trim input) = Some b"
    and "wf_id (workflow a) = wf_id b"
    and "steps b \<noteq> []"
  shows "\<exists>res.
           computeAssistant cat rt input (Some a) = Inr res
           \<and> nextRun res = Some \<lparr>workflow = b, currentStepIndex = 0, completedStepIds = [],
                                  startedAt = now rt 0, notes = []\<rparr>
           \<and> completedRun res = None
           \<and> computeAssistant cat rt input None = Inr res"
proof -
  let ?fresh = "\<lparr>workflow = b, currentStepIndex = 0, completedStepIds = [],
                  startedAt = now rt 0, notes = []\<rparr>"
  from assms(4) have "elemAt (steps (workflow ?fresh)) (currentStepIndex ?fresh) = Some (hd (steps b))"
    by (simp add: elemAt_0)
  then obtain str where "formatActiveStep ?fresh = Inr str"
    using formatActiveStep_Inr by blast
  with assms(1,2,3) show ?thesis
    by (simp add: classify_Start startHandler_def)
qed

theorem restart_same_workflow_resets_witness:
  "classify ''Start Employee Onboarding'' = Start
   \<and> findWorkflowFromText demoCatalog (trim ''Start Employee Onboarding'') = Some onboarding
   \<and> wf_id (workflow busyRun) = wf_id onboarding
   \<and> steps onboarding \<noteq> []
   \<and> (\<exists>res.
           computeAssistant demoCatalog demoRuntime ''Start Employee Onboarding'' (Some busyRun) = Inr res
           \<and> nextRun res = Some \<lparr>workflow = onboarding, currentStepIndex = 0, completedStepIds = [],
                                  startedAt = now demoRuntime 0, notes = []\<rparr>
           \<and> completedRun res = None
           \<and> computeAssistant demoCatalog demoRuntime ''Start Employee Onboarding'' None = Inr res)"
proof -
  have c: "classify ''Start Employee Onboarding'' = Start"
    by code_simp
  have f: "findWorkflowFromText demoCatalog (trim ''Start Employee Onboarding'') = Some onboarding"
    by code_simp
  have d: "wf_id (workflow busyRun) = wf_id onboarding"
    by (simp add: busyRun_def)
  have n: "steps onboarding \<noteq> []"
    by (simp add: onboarding_def)
  show ?thesis
    using c f d n restart_same_workflow_resets [OF c f d n, of demoRuntime] by simp
qed

subsection \<open>Export\<close>

lemma startsWith_join_filterBoolean:
  assumes "h \<noteq> []"
  shows "startsWith (join sep (filterBoolean (h # rest))) h"
proof -
  from assms have "filterBoolean (h # rest) = h # filterBoolean rest"
    by (simp add: filterBoolean_def)
  then show ?thesis
    using join_Cons [of sep h "filterBoolean rest"] startsWith_append by metis
qed

lemma summaryHeader_nonempty: "summaryHeader record \<noteq> []"
  by (simp add: summaryHeader_def)

lemma formatRunSummary_header: "startsWith (formatRunSummary rt record) (summaryHeader record)"
  unfolding formatRunSummary_def Let_def
  by (rule startsWith_join_filterBoolean) (rule summaryHeader_nonempty)

text \<open>
  Claim C6. For every active run, an export/summary command returns the run unchanged
  and no closed run; the snapshot it renders has status completed if the number of
  completed step ids equals the number of steps of the workflow and in-progress
  otherwise, and the rendered text opens with the header of that status.
\<close>

theorem export_leaves_run_unchanged:
  assumes "classify input = Export"
  shows "computeAssistant cat rt input (Some run) =
           Inr \<lparr>replies = [createMessage rt 0 Assistant (formatRunSummary rt (exportRecord rt run))],
                nextRun = Some run, completedRun = None\<rparr>
         \<and> status (exportRecord rt run) =
             (if length (completedStepIds run) = length (steps (workflow run))
              then Completed else InProgress)
         \<and> startsWith (formatRunSummary rt (exportRecord rt run))
             (''Workflow \"'' @ name (workflow run)
              @ (if length (completedStepIds run) = length (steps (workflow run))
                 then ''\" finished successfully.'' else ''\" is still in progress.''))"
proof -
  have "computeAssistant cat rt input (Some run) =
           Inr \<lparr>replies = [createMessage rt 0 Assistant (formatRunSummary rt (exportRecord rt run))],
                nextRun = Some run, completedRun = None\<rparr>"
    using assms by (simp add: classify_Export exportHandler_def reply_Nil)
  moreover have "status (exportRecord rt run) =
             (if length (completedStepIds run) = length (steps (workflow run))
              then Completed else InProgress)"
    by (simp add: exportRecord_def)
  moreover have "summaryHeader (exportRecord rt run) = ''Workflow \"'' @ name (workflow run)
              @ (if length (completedStepIds run) = length (steps (workflow run))
                 then ''\" finished successfully.'' else ''\" is still in progress.'')"
    by (simp add: summaryHeader_def exportRecord_def)
  ultimately show ?thesis
    using formatRunSummary_header [of rt "exportRecord rt run"] by simp
qed

theorem export_leaves_run_unchanged_witness:
  "classify ''Export summary'' = Export
   \<and> computeAssistant demoCatalog demoRuntime ''Export summary'' (Some busyRun) =
           Inr \<lparr>replies = [createMessage demoRuntime 0 Assistant
                             (formatRunSummary demoRuntime (exportRecord demoRuntime busyRun))],
                nextRun = Some busyRun, completedRun = None\<rparr>
   \<and> status (exportRecord demoRuntime busyRun) = InProgress
   \<and> startsWith (formatRunSummary demoRuntime (exportRecord demoRuntime busyRun))
        ''Workflow \"Employee Onboarding\" is still in progress.''"
proof -
  have c: "classify ''Export summary'' = Export"
    by code_simp
  have l: "length (completedStepIds busyRun) \<noteq> length (steps (workflow busyRun))"
    by (simp add: busyRun_def onboarding_def)
  have n: "name (workflow busyRun) = ''Employee Onboarding''"
    by (simp add: busyRun_def onboarding_def)
  show ?thesis
    using c l n export_leaves_run_unchanged [OF c, of demoCatalog demoRuntime busyRun] by simp
qed

subsection \<open>Greeting and help\<close>

lemma isGreeting_nonempty: "isGreeting (toLowerCase s) \<Longrightarrow> s \<noteq> []"
  by (auto simp: isGreeting_def toLowerCase_def)

text \<open>
  Claim C5, amended. For every input whose trimmed lower-cased text is exactly "hi",
  "hello" or "hey", or contains "help" anywhere, the interpreter replies with the
  capability summary and leaves the run state unchanged.
\<close>

theorem greeting_exact_or_help:
  assumes "lower = toLowerCase (trim input)"
    and "lower = ''hi'' \<or> lower = ''hello'' \<or> lower = ''hey'' \<or> includesStr lower ''help''"
  shows "computeAssistant cat rt input run =
           Inr \<lparr>replies = [createMessage rt 0 Assistant capabilityText],
                nextRun = run, completedRun = None\<rparr>"
proof -
  from assms have g: "isGreeting (toLowerCase (trim input))"
    by (simp add: isGreeting_def)
  then have "trim input \<noteq> []"
    by (rule isGreeting_nonempty)
  with g show ?thesis
    by (simp add: computeAssistant_def reply_Nil)
qed

theorem greeting_exact_or_help_witness:
  "toLowerCase (trim ''  Hello '') = ''hello''
   \<and> computeAssistant demoCatalog demoRuntime ''  Hello '' (Some busyRun) =
           Inr \<lparr>replies = [createMessage demoRuntime 0 Assistant capabilityText],
                nextRun = Some busyRun, completedRun = None\<rparr>"
proof -
  have l: "''hello'' = toLowerCase (trim ''  Hello '')"
    by code_simp
  have g: "''hello'' = ''hi'' \<or> ''hello'' = ''hello'' \<or> ''hello'' = ''hey'' \<or> includesStr ''hello'' ''help''"
    by simp
  show ?thesis
    using l greeting_exact_or_help [OF l g, of demoCatalog demoRuntime "Some busyRun"] by simp
qed

text \<open>
  Claim C5 as stated fails: "hey cancel the run" contains "hey" as a whole word, yet the
  source compares the whole text with \<open>===\<close>, so the input is a cancel command: the
  run is closed and the reply is not the capability summary.
\<close>

theorem greeting_token_counterexample:
  "hasToken (toLowerCase (trim ''hey cancel the run'')) ''hey''
   \<and> map_sum id nextRun
        (computeAssistant demoCatalog demoRuntime ''hey cancel the run'' (Some busyRun)) = Inr None
   \<and> map_sum id (map content \<circ> replies)
        (computeAssistant demoCatalog demoRuntime ''hey cancel the run'' (Some busyRun))
      \<noteq> Inr [capabilityText]"
  by code_simp

subsection \<open>Details for a workflow that is not found\<close>

lemma handlers_append_one_reply:
  "startHandler cat rt t rs run = Inr res \<Longrightarrow> \<exists>m. replies res = rs @ [m]"
  "advanceHandler rt rs run = Inr res \<Longrightarrow> \<exists>m. replies res = rs @ [m]"
  "statusHandler rt rs run = Inr res \<Longrightarrow> \<exists>m. replies res = rs @ [m]"
  "noteHandler rt t rs run = Inr res \<Longrightarrow> \<exists>m. replies res = rs @ [m]"
  "cancelHandler rt rs run = Inr res \<Longrightarrow> \<exists>m. replies res = rs @ [m]"
  "exportHandler rt rs run = Inr res \<Longrightarrow> \<exists>m. replies res = rs @ [m]"
  "backHandler rt rs run = Inr res \<Longrightarrow> \<exists>m. replies res = rs @ [m]"
  by (auto simp: startHandler_def advanceHandler_def statusHandler_def noteHandler_def
      cancelHandler_def exportHandler_def backHandler_def reply_def Let_def
      split: option.splits sum.splits if_splits list.splits)

lemma afterDetails_appends_one_reply:
  assumes "afterDetails cat rt t lower rs run = Inr res"
  shows "\<exists>m. replies res = rs @ [m]"
  using assms
  by (auto simp: afterDetails_def reply_def split: if_splits dest: handlers_append_one_reply)

text \<open>
  Claim C4, amended. For every input classified as show details where no workflow
  matches and the text mentions "workflow", the interpreter emits the not-found hint as
  its first reply and then goes on to the later categories with the same text and run
  (the details block returns only when a workflow was found): the result is the one of
  the later categories, with exactly one more reply after the hint. When the text
  matches none of the later categories, that reply is the fallback, \<open>nextRun\<close> is the
  input run and there is no closed run.
\<close>

theorem details_not_found_falls_through:
  assumes "classify input = Details"
    and "findWorkflowFromText cat (trim input) = None"
    and "lower = toLowerCase (trim input)"
    and "includesStr lower ''workflow''"
  shows "computeAssistant cat rt input run =
           afterDetails cat rt (trim input) lower
             [createMessage rt 0 Assistant detailsNotFoundText] run
         \<and> (\<forall>res. computeAssistant cat rt input run = Inr res \<longrightarrow>
               (\<exists>m. replies res = [createMessage rt 0 Assistant detailsNotFoundText, m]))
         \<and> (\<not> isStart lower \<and> \<not> isAdvance lower \<and> \<not> isStatus lower \<and> \<not> isNote lower
              \<and> \<not> isCancel lower \<and> \<not> isExport lower \<and> \<not> isBack lower \<longrightarrow>
             computeAssistant cat rt input run =
               Inr \<lparr>replies = [createMessage rt 0 Assistant detailsNotFoundText,
                               createMessage rt 1 Assistant (fallbackText (trim input))],
                    nextRun = run, completedRun = None\<rparr>)"
proof -
  have eq: "computeAssistant cat rt input run =
           afterDetails cat rt (trim input) lower
             [createMessage rt 0 Assistant detailsNotFoundText] run"
    using assms
    by (simp add: classify_def computeAssistant_def Let_def reply_Nil split: if_splits)
  moreover have "\<forall>res. computeAssistant cat rt input run = Inr res \<longrightarrow>
               (\<exists>m. replies res = [createMessage rt 0 Assistant detailsNotFoundText, m])"
  proof (intro allI impI)
    fix res
    assume "computeAssistant cat rt input run = Inr res"
    with eq have "afterDetails cat rt (trim input) lower
             [createMessage rt 0 Assistant detailsNotFoundText] run = Inr res"
      by simp
    from afterDetails_appends_one_reply [OF this]
    show "\<exists>m. replies res = [createMessage rt 0 Assistant detailsNotFoundText, m]"
      by simp
  qed
  moreover have "\<not> isStart lower \<and> \<not> isAdvance lower \<and> \<not> isStatus lower \<and> \<not> isNote lower
              \<and> \<not> isCancel lower \<and> \<not> isExport lower \<and> \<not> isBack lower \<longrightarrow>
             computeAssistant cat rt input run =
               Inr \<lparr>replies = [createMessage rt 0 Assistant detailsNotFoundText,
                               createMessage rt 1 Assistant (fallbackText (trim input))],
                    nextRun = run, completedRun = None\<rparr>"
    using eq by (simp add: afterDetails_def reply_def)
  ultimately show ?thesis by blast
qed

theorem details_not_found_falls_through_witness:
  "classify ''Show me that workflow'' = Details
   \<and> findWorkflowFromText demoCatalog (trim ''Show me that workflow'') = None
   \<and> includesStr (toLowerCase (trim ''Show me that workflow'')) ''workflow''
   \<and> computeAssistant demoCatalog demoRuntime ''Show me that workflow'' (Some busyRun) =
        Inr \<lparr>replies = [createMessage demoRuntime 0 Assistant detailsNotFoundText,
                        createMessage demoRuntime 1 Assistant (fallbackText (trim ''Show me that workflow''))],
             nextRun = Some busyRun, completedRun = None\<rparr>"
proof -
  let ?lower = "toLowerCase (trim ''Show me that workflow'')"
  have c: "classify ''Show me that workflow'' = Details"
    by code_simp
  have f: "findWorkflowFromText demoCatalog (trim ''Show me that workflow'') = None"
    by code_simp
  have w: "includesStr ?lower ''workflow''"
    by code_simp
  have n: "\<not> isStart ?lower \<and> \<not> isAdvance ?lower \<and> \<not> isStatus ?lower \<and> \<not> isNote ?lower
              \<and> \<not> isCancel ?lower \<and> \<not> isExport ?lower \<and> \<not> isBack ?lower"
    by code_simp
  from n details_not_found_falls_through [OF c f refl w, of demoRuntime "Some busyRun"]
  have "computeAssistant demoCatalog demoRuntime ''Show me that workflow'' (Some busyRun) =
        Inr \<lparr>replies = [createMessage demoRuntime 0 Assistant detailsNotFoundText,
                        createMessage demoRuntime 1 Assistant (fallbackText (trim ''Show me that workflow''))],
             nextRun = Some busyRun, completedRun = None\<rparr>"
    by blast
  with c f w show ?thesis
    by blast
qed

text \<open>
  Claim C4 as stated fails: "show workflow and cancel" is classified as show details,
  matches no workflow and mentions "workflow"; after the hint the cancel handler runs
  and closes the active run.
\<close>

theorem details_not_found_counterexample:
  "classify ''show workflow and cancel'' = Details
   \<and> findWorkflowFromText demoCatalog (trim ''show workflow and cancel'') = None
   \<and> includesStr (toLowerCase (trim ''show workflow and cancel'')) ''workflow''
   \<and> map_sum id nextRun
        (computeAssistant demoCatalog demoRuntime ''show workflow and cancel'' (Some busyRun))
      = Inr None
   \<and> map_sum id (map_option status \<circ> completedRun)
        (computeAssistant demoCatalog demoRuntime ''show workflow and cancel'' (Some busyRun))
      = Inr (Some Cancelled)"
  by code_simp

subsection \<open>Determinism\<close>

lemma formatRunSummary_runtime:
  "toLocaleString rt1 = toLocaleString rt2 \<Longrightarrow> formatRunSummary rt1 r = formatRunSummary rt2 r"
  by (simp add: formatRunSummary_def)

lemma reply_sameUpToIds:
  "sameUpToIds rs1 rs2 \<Longrightarrow> sameUpToIds (reply rt1 rs1 c) (reply rt2 rs2 c)"
  by (simp add: sameUpToIds_def reply_def createMessage_def)

lemma withoutIds_eq:
  "sameUpToIds rs1 rs2 \<Longrightarrow>
     withoutIds \<lparr>replies = rs1, nextRun = n, completedRun = c\<rparr>
     = withoutIds \<lparr>replies = rs2, nextRun = n, completedRun = c\<rparr>"
  by (simp add: sameUpToIds_def withoutIds_def)

lemma startHandler_runtime:
  assumes "now rt1 = now rt2" and "sameUpToIds rs1 rs2"
  shows "map_sum id withoutIds (startHandler cat rt1 t rs1 run)
         = map_sum id withoutIds (startHandler cat rt2 t rs2 run)"
  using assms reply_sameUpToIds [OF assms(2), of rt1 _ rt2]
  by (simp add: startHandler_def Let_def withoutIds_eq split: option.splits sum.splits)

lemma advanceHandler_runtime:
  assumes "now rt1 = now rt2" and "toLocaleString rt1 = toLocaleString rt2"
    and "sameUpToIds rs1 rs2"
  shows "map_sum id withoutIds (advanceHandler rt1 rs1 run)
         = map_sum id withoutIds (advanceHandler rt2 rs2 run)"
  using assms(1) formatRunSummary_runtime [OF assms(2)]
    reply_sameUpToIds [OF assms(3), of rt1 _ rt2]
  by (simp add: advanceHandler_def Let_def withoutIds_eq split: option.splits sum.splits)

lemma statusHandler_runtime:
  assumes "sameUpToIds rs1 rs2"
  shows "map_sum id withoutIds (statusHandler rt1 rs1 run)
         = map_sum id withoutIds (statusHandler rt2 rs2 run)"
  using reply_sameUpToIds [OF assms, of rt1 _ rt2]
  by (simp add: statusHandler_def withoutIds_eq split: option.splits sum.splits)

lemma noteHandler_runtime:
  assumes "sameUpToIds rs1 rs2"
  shows "map_sum id withoutIds (noteHandler rt1 t rs1 run)
         = map_sum id withoutIds (noteHandler rt2 t rs2 run)"
  using reply_sameUpToIds [OF assms, of rt1 _ rt2]
  by (simp add: noteHandler_def Let_def withoutIds_eq split: option.splits list.splits)

lemma cancelHandler_runtime:
  assumes "now rt1 = now rt2" and "toLocaleString rt1 = toLocaleString rt2"
    and "sameUpToIds rs1 rs2"
  shows "map_sum id withoutIds (cancelHandler rt1 rs1 run)
         = map_sum id withoutIds (cancelHandler rt2 rs2 run)"
  using assms(1) formatRunSummary_runtime [OF assms(2)]
    reply_sameUpToIds [OF assms(3), of rt1 _ rt2]
  by (simp add: cancelHandler_def Let_def withoutIds_eq split: option.splits)

lemma exportHandler_runtime:
  assumes "now rt1 = now rt2" and "toLocaleString rt1 = toLocaleString rt2"
    and "sameUpToIds rs1 rs2"
  shows "map_sum id withoutIds (exportHandler rt1 rs1 run)
         = map_sum id withoutIds (exportHandler rt2 rs2 run)"
  using assms(1) formatRunSummary_runtime [OF assms(2)]
    reply_sameUpToIds [OF assms(3), of rt1 _ rt2]
  by (simp add: exportHandler_def exportRecord_def withoutIds_eq split: option.splits)

lemma backHandler_runtime:
  assumes "sameUpToIds rs1 rs2"
  shows "map_sum id withoutIds (backHandler rt1 rs1 run)
         = map_sum id withoutIds (backHandler rt2 rs2 run)"
  using reply_sameUpToIds [OF assms, of rt1 _ rt2]
  by (simp add: backHandler_def Let_def withoutIds_eq split: option.splits sum.splits)

lemma afterDetails_runtime:
  assumes "now rt1 = now rt2" and "toLocaleString rt1 = toLocaleString rt2"
    and "sameUpToIds rs1 rs2"
  shows "map_sum id withoutIds (afterDetails cat rt1 t lower rs1 run)
         = map_sum id withoutIds (afterDetails cat rt2 t lower rs2 run)"
  unfolding afterDetails_def
  using startHandler_runtime [OF assms(1,3)] advanceHandler_runtime [OF assms]
    statusHandler_runtime [OF assms(3)] noteHandler_runtime [OF assms(3)]
    cancelHandler_runtime [OF assms] exportHandler_runtime [OF assms]
    backHandler_runtime [OF assms(3)] reply_sameUpToIds [OF assms(3), of rt1 _ rt2]
  by (simp add: withoutIds_eq)

text \<open>
  Claim C9, amended. The interpreter is deterministic up to the ids of its messages and
  the readings of the clock: for every input text and run state, two calls with
  identical arguments whose clock readings and date rendering agree return the same
  \<open>nextRun\<close>, the same closed run, and reply lists with the same roles and contents in
  the same order; the message ids come from a random source on each call.
\<close>

theorem deterministic_up_to_ids:
  assumes "now rt1 = now rt2" and "toLocaleString rt1 = toLocaleString rt2"
  shows "map_sum id withoutIds (computeAssistant cat rt1 input run)
         = map_sum id withoutIds (computeAssistant cat rt2 input run)"
proof -
  have nil: "sameUpToIds [] []"
    by (simp add: sameUpToIds_def)
  have one: "\<And>c. sameUpToIds (reply rt1 [] c) (reply rt2 [] c)"
    using nil by (rule reply_sameUpToIds)
  show ?thesis
    unfolding computeAssistant_def Let_def
    using afterDetails_runtime [OF assms nil] afterDetails_runtime [OF assms one] one
    by (simp add: withoutIds_eq split: option.splits)
qed

theorem deterministic_up_to_ids_witness:
  "now demoRuntime = now otherRuntime
   \<and> toLocaleString demoRuntime = toLocaleString otherRuntime
   \<and> map_sum id withoutIds
        (computeAssistant demoCatalog demoRuntime ''Start Incident Response'' (Some busyRun))
      = map_sum id withoutIds
        (computeAssistant demoCatalog otherRuntime ''Start Incident Response'' (Some busyRun))"
proof -
  have n: "now demoRuntime = now otherRuntime"
    by (simp add: otherRuntime_def)
  have l: "toLocaleString demoRuntime = toLocaleString otherRuntime"
    by (simp add: otherRuntime_def)
  show ?thesis
    using n l
      deterministic_up_to_ids [OF n l, of demoCatalog "''Start Incident Response''" "Some busyRun"]
    by blast
qed

text \<open>
  Claim C9 as stated fails: \<open>createId\<close> draws each message id from
  \<open>crypto.randomUUID()\<close> or \<open>Math.random()\<close>, so two calls with the same text and the
  same run state return different replies when the generator does.
\<close>

theorem determinism_counterexample:
  "computeAssistant demoCatalog demoRuntime ''hello'' None
   \<noteq> computeAssistant demoCatalog otherRuntime ''hello'' None"
  by code_simp

subsection \<open>The index invariant\<close>

lemma elemAt_in_range:
  "0 \<le> i \<Longrightarrow> i < int (length xs) \<Longrightarrow> elemAt xs i = Some (xs ! nat i)"
  by (simp add: elemAt_def)

lemma formatActiveStep_total:
  "indexInRange run \<Longrightarrow> \<exists>str. formatActiveStep run = Inr str"
  by (simp add: indexInRange_def formatActiveStep_def elemAt_def)

lemma buildStatusMessage_total:
  "indexInRange run \<Longrightarrow> \<exists>str. buildStatusMessage run = Inr str"
  by (simp add: indexInRange_def buildStatusMessage_def elemAt_def Let_def min_def)

lemma findWorkflowFromText_steps:
  assumes "catalogWellFormed cat" and "findWorkflowFromText cat t = Some w"
  shows "steps w \<noteq> []"
proof -
  from assms(2) have "w \<in> set (WORKFLOWS cat) \<or> getWorkflowByQuery cat t = Some w"
    by (auto simp: findWorkflowFromText_def Let_def find_Some_iff split: option.splits)
  with assms(1) show ?thesis
    by (auto simp: catalogWellFormed_def)
qed

lemma startHandler_index:
  assumes "catalogWellFormed cat" and "\<forall>r. run = Some r \<longrightarrow> indexInRange r"
  shows "keepsIndex (startHandler cat rt t rs run)"
proof (cases "findWorkflowFromText cat t")
  case None
  with assms(2) show ?thesis
    by (simp add: startHandler_def keepsIndex_def)
next
  case (Some target)
  with assms(1) have ne: "steps target \<noteq> []"
    using findWorkflowFromText_steps by blast
  have noThrow: "\<And>st e. formatActiveStep \<lparr>workflow = target, currentStepIndex = 0,
        completedStepIds = [], startedAt = st, notes = []\<rparr> \<noteq> Inl e"
    using ne by (simp add: formatActiveStep_def elemAt_0)
  have inRange: "\<And>st. indexInRange \<lparr>workflow = target, currentStepIndex = 0,
        completedStepIds = [], startedAt = st, notes = []\<rparr>"
    using ne by (simp add: indexInRange_def)
  show ?thesis
    using Some
    by (auto simp: startHandler_def keepsIndex_def Let_def noThrow inRange
             split: option.splits sum.splits)
qed

lemma advanceHandler_index:
  assumes "\<forall>r. run = Some r \<longrightarrow> indexInRange r"
  shows "keepsIndex (advanceHandler rt rs run)"
proof (cases run)
  case None
  then show ?thesis
    by (simp add: advanceHandler_def keepsIndex_def)
next
  case (Some r)
  with assms have ir: "indexInRange r" by simp
  then have e: "elemAt (steps (workflow r)) (currentStepIndex r)
                = Some (steps (workflow r) ! nat (currentStepIndex r))"
    by (simp add: indexInRange_def elemAt_in_range)
  let ?s = "steps (workflow r) ! nat (currentStepIndex r)"
  let ?r2 = "r\<lparr>completedStepIds := completedStepIds r @ [step_id ?s],
               currentStepIndex := currentStepIndex r + 1\<rparr>"
  show ?thesis
  proof (cases "int (length (steps (workflow r))) - 1 \<le> currentStepIndex r")
    case True
    with Some e ir show ?thesis
      by (simp add: advanceHandler_def keepsIndex_def Let_def)
  next
    case False
    with ir have "indexInRange ?r2"
      by (simp add: indexInRange_def)
    moreover from this obtain str where "formatActiveStep ?r2 = Inr str"
      using formatActiveStep_total by blast
    ultimately show ?thesis
      using Some e ir False by (simp add: advanceHandler_def keepsIndex_def Let_def)
  qed
qed

lemma statusHandler_index:
  assumes "\<forall>r. run = Some r \<longrightarrow> indexInRange r"
  shows "keepsIndex (statusHandler rt rs run)"
proof (cases run)
  case None
  then show ?thesis
    by (simp add: statusHandler_def keepsIndex_def)
next
  case (Some r)
  with assms have ir: "indexInRange r" by simp
  then obtain str where "buildStatusMessage r = Inr str"
    using buildStatusMessage_total by blast
  with Some ir show ?thesis
    by (simp add: statusHandler_def keepsIndex_def)
qed

lemma noteHandler_index:
  assumes "\<forall>r. run = Some r \<longrightarrow> indexInRange r"
  shows "keepsIndex (noteHandler rt t rs run)"
  using assms
  by (cases run)
     (auto simp: noteHandler_def keepsIndex_def indexInRange_def Let_def
           split: option.splits list.splits)

lemma cancelHandler_index: "keepsIndex (cancelHandler rt rs run)"
  by (cases run) (simp_all add: cancelHandler_def keepsIndex_def Let_def)

lemma exportHandler_index:
  assumes "\<forall>r. run = Some r \<longrightarrow> indexInRange r"
  shows "keepsIndex (exportHandler rt rs run)"
  using assms by (cases run) (simp_all add: exportHandler_def keepsIndex_def)

lemma backHandler_index:
  assumes "\<forall>r. run = Some r \<longrightarrow> indexInRange r"
  shows "keepsIndex (backHandler rt rs run)"
proof (cases run)
  case None
  then show ?thesis
    by (simp add: backHandler_def keepsIndex_def)
next
  case (Some r)
  with assms have ir: "indexInRange r" by simp
  show ?thesis
  proof (cases "currentStepIndex r = 0")
    case True
    with Some ir show ?thesis
      by (simp add: backHandler_def keepsIndex_def)
  next
    case False
    let ?r1 = "r\<lparr>currentStepIndex := currentStepIndex r - 1\<rparr>"
    from False ir have "indexInRange ?r1"
      by (simp add: indexInRange_def)
    moreover from this obtain str where "formatActiveStep ?r1 = Inr str"
      using formatActiveStep_total by blast
    ultimately show ?thesis
      using Some False by (simp add: backHandler_def keepsIndex_def Let_def)
  qed
qed

lemma afterDetails_index:
  assumes "catalogWellFormed cat" and "\<forall>r. run = Some r \<longrightarrow> indexInRange r"
  shows "keepsIndex (afterDetails cat rt t lower rs run)"
  unfolding afterDetails_def
  using startHandler_index [OF assms] advanceHandler_index [OF assms(2)]
    statusHandler_index [OF assms(2)] noteHandler_index [OF assms(2)] cancelHandler_index
    exportHandler_index [OF assms(2)] backHandler_index [OF assms(2)] assms(2)
  by (simp add: keepsIndex_def)

text \<open>
  Claim C7. Every operation preserves the index invariant of the active run: if the
  input run, when there is one, satisfies \<open>0 \<le> currentStepIndex < steps.length\<close> and
  every workflow of the catalog has at least one step, then the call returns and the
  returned \<open>nextRun\<close>, when there is one, satisfies the invariant too.
\<close>

theorem index_invariant_preserved:
  assumes "catalogWellFormed cat" and "\<forall>r. run = Some r \<longrightarrow> indexInRange r"
  shows "\<exists>res. computeAssistant cat rt input run = Inr res
               \<and> (\<forall>r'. nextRun res = Some r' \<longrightarrow> indexInRange r')"
proof -
  have "keepsIndex (computeAssistant cat rt input run)"
    unfolding computeAssistant_def Let_def
    using afterDetails_index [OF assms] assms(2)
    by (simp add: keepsIndex_def split: option.splits)
  then show ?thesis
    by (simp add: keepsIndex_def)
qed

theorem index_invariant_preserved_witness:
  "catalogWellFormed demoCatalog
   \<and> indexInRange busyRun
   \<and> (\<exists>res. computeAssistant demoCatalog demoRuntime ''go back'' (Some busyRun) = Inr res
             \<and> (\<forall>r'. nextRun res = Some r' \<longrightarrow> indexInRange r'))"
proof -
  have w: "catalogWellFormed demoCatalog"
    by (simp add: catalogWellFormed_def demoCatalog_def onboarding_def incident_def)
  have i: "indexInRange busyRun"
    by (simp add: indexInRange_def busyRun_def onboarding_def)
  then have r: "\<forall>r. Some busyRun = Some r \<longrightarrow> indexInRange r"
    by simp
  show ?thesis
    using w i index_invariant_preserved [OF w r, of demoRuntime "''go back''"] by blast
qed

subsection \<open>Completing every step in order\<close>

lemma distinct_map_nth_notin_take:
  assumes "distinct (map f xs)" and "k < length xs"
  shows "f (xs ! k) \<notin> set (map f (take k xs))"
proof -
  from assms(2) have "map f (take (Suc k) xs) = map f (take k xs) @ [f (xs ! k)]"
    by (simp add: take_Suc_conv_app_nth)
  moreover from assms(1) have "distinct (map f (take (Suc k) xs))"
    by (simp add: distinct_take flip: take_map)
  ultimately show ?thesis
    by simp
qed

lemma runAfter_0: "runAfter w t 0 = freshRun w t"
  by (simp add: runAfter_def freshRun_def)

lemma advance_before_last:
  assumes "distinct (map step_id (steps w))" and "k + 1 < length (steps w)"
  shows "\<exists>m. advanceHandler rt [] (Some (runAfter w t k)) =
               Inr \<lparr>replies = [m], nextRun = Some (runAfter w t (k + 1)), completedRun = None\<rparr>"
proof -
  from assms(2) have e: "elemAt (steps w) (int k) = Some (steps w ! k)"
    by (simp add: elemAt_def)
  have n: "step_id (steps w ! k) \<notin> set (map step_id (take k (steps w)))"
    using distinct_map_nth_notin_take [OF assms(1), of k] assms(2) by simp
  from assms(2) have t: "map step_id (take (Suc k) (steps w))
                          = map step_id (take k (steps w)) @ [step_id (steps w ! k)]"
    by (simp add: take_Suc_conv_app_nth)
  from assms(2) have "indexInRange (runAfter w t (k + 1))"
    by (simp add: indexInRange_def runAfter_def)
  then obtain str where f: "formatActiveStep (runAfter w t (k + 1)) = Inr str"
    using formatActiveStep_total by blast
  have r: "(runAfter w t k)\<lparr>completedStepIds := completedStepIds (runAfter w t k) @ [step_id (steps w ! k)],
              currentStepIndex := currentStepIndex (runAfter w t k) + 1\<rparr> = runAfter w t (k + 1)"
    using t by (simp add: runAfter_def)
  have l: "\<not> int (length (steps w)) - 1 \<le> int k"
    using assms(2) by simp
  have w: "workflow (runAfter w t k) = w" "currentStepIndex (runAfter w t k) = int k"
    "completedStepIds (runAfter w t k) = map step_id (take k (steps w))"
    by (simp_all add: runAfter_def)
  show ?thesis
    unfolding advanceHandler_def
    using e n l f r by (simp add: w Let_def reply_def del: set_map)
qed

lemma advance_last:
  assumes "distinct (map step_id (steps w))" and "k + 1 = length (steps w)"
  shows "\<exists>m. advanceHandler rt [] (Some (runAfter w t k)) =
               Inr \<lparr>replies = [m], nextRun = None,
                    completedRun = Some \<lparr>workflow_rec = w, startedAt_rec = t,
                      completedAt = now rt 0, completedStepIds_rec = map step_id (steps w),
                      notes_rec = [], status = Completed\<rparr>\<rparr>"
proof -
  from assms(2) have e: "elemAt (steps w) (int k) = Some (steps w ! k)"
    by (simp add: elemAt_def)
  have n: "step_id (steps w ! k) \<notin> set (map step_id (take k (steps w)))"
    using distinct_map_nth_notin_take [OF assms(1), of k] assms(2) by simp
  from assms(2) have "k < length (steps w)"
    by simp
  then have "take (Suc k) (steps w) = take k (steps w) @ [steps w ! k]"
    by (rule take_Suc_conv_app_nth)
  moreover from assms(2) have "take (Suc k) (steps w) = steps w"
    by simp
  ultimately have "steps w = take k (steps w) @ [steps w ! k]"
    by simp
  then have "map step_id (steps w) = map step_id (take k (steps w) @ [steps w ! k])"
    by simp
  then have t: "map step_id (take k (steps w)) @ [step_id (steps w ! k)]
                          = map step_id (steps w)"
    by simp
  have l: "int (length (steps w)) - 1 \<le> int k"
    using assms(2) by simp
  have w: "workflow (runAfter w t k) = w" "currentStepIndex (runAfter w t k) = int k"
    "completedStepIds (runAfter w t k) = map step_id (take k (steps w))"
    "startedAt (runAfter w t k) = t" "notes (runAfter w t k) = []"
    by (simp_all add: runAfter_def)
  show ?thesis
    unfolding advanceHandler_def
    using e n l t by (simp add: w Let_def reply_def del: set_map)
qed

lemma session_advance:
  assumes "distinct (map step_id (steps w))"
    and "\<forall>c \<in> set cmds. classify (snd c) = Advance"
    and "k + length cmds = length (steps w)"
  shows "length (session cat cmds (Some (runAfter w t k))) = length cmds
         \<and> (\<forall>i < length cmds. \<exists>res.
               session cat cmds (Some (runAfter w t k)) ! i = Inr res
               \<and> (if k + i + 1 < length (steps w)
                  then nextRun res = Some (runAfter w t (k + i + 1)) \<and> completedRun res = None
                  else nextRun res = None
                       \<and> (\<exists>c. completedRun res = Some c \<and> status c = Completed
                              \<and> workflow_rec c = w
                              \<and> completedStepIds_rec c = map step_id (steps w))))"
  using assms(2,3)
proof (induction cmds arbitrary: k)
  case Nil
  then show ?case by simp
next
  case (Cons cmd cmds)
  obtain rt input where cmd: "cmd = (rt, input)"
    by (cases cmd)
  with Cons.prems(1) have adv: "computeAssistant cat rt input (Some (runAfter w t k))
                                = advanceHandler rt [] (Some (runAfter w t k))"
    by (simp add: classify_Advance)
  show ?case
  proof (cases "cmds = []")
    case True
    with Cons.prems(2) have last: "k + 1 = length (steps w)" by simp
    from advance_last [OF assms(1) this, of rt t] True cmd adv last show ?thesis
      by auto
  next
    case False
    with Cons.prems(2) have lt: "k + 1 < length (steps w)"
      by (cases cmds) simp_all
    from advance_before_last [OF assms(1) this, of rt t]
    obtain m where h: "computeAssistant cat rt input (Some (runAfter w t k)) =
               Inr \<lparr>replies = [m], nextRun = Some (runAfter w t (k + 1)), completedRun = None\<rparr>"
      using adv by auto
    from Cons.prems have p1: "\<forall>c \<in> set cmds. classify (snd c) = Advance"
      and p2: "(k + 1) + length cmds = length (steps w)"
      by simp_all
    note ih = Cons.IH [OF p1 p2]
    have s: "session cat (cmd # cmds) (Some (runAfter w t k))
             = Inr \<lparr>replies = [m], nextRun = Some (runAfter w t (k + 1)), completedRun = None\<rparr>
               # session cat cmds (Some (runAfter w t (k + 1)))"
      using cmd h by simp
    show ?thesis
    proof (intro conjI allI impI)
      show "length (session cat (cmd # cmds) (Some (runAfter w t k))) = length (cmd # cmds)"
        using s ih by simp
    next
      fix i
      assume i: "i < length (cmd # cmds)"
      show "\<exists>res. session cat (cmd # cmds) (Some (runAfter w t k)) ! i = Inr res
               \<and> (if k + i + 1 < length (steps w)
                  then nextRun res = Some (runAfter w t (k + i + 1)) \<and> completedRun res = None
                  else nextRun res = None
                       \<and> (\<exists>c. completedRun res = Some c \<and> status c = Completed
                              \<and> workflow_rec c = w
                              \<and> completedStepIds_rec c = map step_id (steps w)))"
      proof (cases i)
        case 0
        with s lt show ?thesis by simp
      next
        case (Suc j)
        with i have "j < length cmds" by simp
        with ih obtain res where "session cat cmds (Some (runAfter w t (k + 1))) ! j = Inr res
               \<and> (if k + 1 + j + 1 < length (steps w)
                  then nextRun res = Some (runAfter w t (k + 1 + j + 1)) \<and> completedRun res = None
                  else nextRun res = None
                       \<and> (\<exists>c. completedRun res = Some c \<and> status c = Completed
                              \<and> workflow_rec c = w
                              \<and> completedStepIds_rec c = map step_id (steps w)))"
          by blast
        with Suc s show ?thesis
          by (simp add: add.commute add.left_commute)
      qed
    qed
  qed
qed

text \<open>
  Claim C2. For every workflow with \<open>N\<close> steps (step ids unique within the workflow, as
  the data model requires), \<open>N\<close> successive advance/complete commands from a fresh run,
  each call taking the \<open>nextRun\<close> of the call before, give on the \<open>N\<close>-th call only a
  closed run with status completed whose \<open>completedStepIds\<close> has length \<open>N\<close>, together
  with no next run; each of the first \<open>N - 1\<close> calls advances \<open>currentStepIndex\<close> by 1
  and produces no closed run.
\<close>

theorem complete_all_steps:
  assumes "distinct (map step_id (steps w))"
    and "length cmds = length (steps w)"
    and "\<forall>c \<in> set cmds. classify (snd c) = Advance"
  shows "length (session cat cmds (Some (freshRun w t))) = length (steps w)
         \<and> (\<forall>i < length (steps w). \<exists>res.
               session cat cmds (Some (freshRun w t)) ! i = Inr res
               \<and> (if i + 1 < length (steps w)
                  then nextRun res = Some (runAfter w t (i + 1))
                       \<and> currentStepIndex (runAfter w t (i + 1)) = int i + 1
                       \<and> completedRun res = None
                  else nextRun res = None
                       \<and> (\<exists>c. completedRun res = Some c \<and> status c = Completed
                              \<and> workflow_rec c = w
                              \<and> length (completedStepIds_rec c) = length (steps w))))"
proof -
  have k0: "0 + length cmds = length (steps w)"
    using assms(2) by simp
  note sa = session_advance [OF assms(1) assms(3) k0, of cat t, unfolded runAfter_0]
  show ?thesis
  proof (intro conjI allI impI)
    show "length (session cat cmds (Some (freshRun w t))) = length (steps w)"
      using sa assms(2) by simp
  next
    fix i
    assume "i < length (steps w)"
    with assms(2) have "i < length cmds"
      by simp
    with sa obtain res where r: "session cat cmds (Some (freshRun w t)) ! i = Inr res"
      and c: "if 0 + i + 1 < length (steps w)
              then nextRun res = Some (runAfter w t (0 + i + 1)) \<and> completedRun res = None
              else nextRun res = None
                   \<and> (\<exists>c. completedRun res = Some c \<and> status c = Completed
                          \<and> workflow_rec c = w
                          \<and> completedStepIds_rec c = map step_id (steps w))"
      by blast
    have "if i + 1 < length (steps w)
          then nextRun res = Some (runAfter w t (i + 1))
               \<and> currentStepIndex (runAfter w t (i + 1)) = int i + 1
               \<and> completedRun res = None
          else nextRun res = None
               \<and> (\<exists>c. completedRun res = Some c \<and> status c = Completed
                      \<and> workflow_rec c = w
                      \<and> length (completedStepIds_rec c) = length (steps w))"
    proof (cases "i + 1 < length (steps w)")
      case True
      with c show ?thesis
        by (simp add: runAfter_def)
    next
      case False
      with c obtain cr where "completedRun res = Some cr" "status cr = Completed"
        "workflow_rec cr = w" "completedStepIds_rec cr = map step_id (steps w)"
        "nextRun res = None"
        by auto
      with False show ?thesis
        by simp
    qed
    with r show "\<exists>res. session cat cmds (Some (freshRun w t)) ! i = Inr res
               \<and> (if i + 1 < length (steps w)
                  then nextRun res = Some (runAfter w t (i + 1))
                       \<and> currentStepIndex (runAfter w t (i + 1)) = int i + 1
                       \<and> completedRun res = None
                  else nextRun res = None
                       \<and> (\<exists>c. completedRun res = Some c \<and> status c = Completed
                              \<and> workflow_rec c = w
                              \<and> length (completedStepIds_rec c) = length (steps w)))"
      by blast
  qed
qed

lemma list_of_length_3: "length xs = 3 \<Longrightarrow> xs = [xs ! 0, xs ! 1, xs ! 2]"
  by (auto simp: numeral_3_eq_3 length_Suc_conv)

theorem complete_all_steps_witness:
  "distinct (map step_id (steps incident))
   \<and> length [(demoRuntime, ''done''), (demoRuntime, ''Complete current step''),
              (otherRuntime, ''next'')] = length (steps incident)
   \<and> classify ''done'' = Advance
   \<and> classify ''Complete current step'' = Advance
   \<and> classify ''next'' = Advance
   \<and> (\<exists>r0 r1 r2 c.
         session demoCatalog
           [(demoRuntime, ''done''), (demoRuntime, ''Complete current step''),
            (otherRuntime, ''next'')] (Some (freshRun incident ''t''))
         = [Inr r0, Inr r1, Inr r2]
         \<and> nextRun r0 = Some (runAfter incident ''t'' 1) \<and> completedRun r0 = None
         \<and> nextRun r1 = Some (runAfter incident ''t'' 2) \<and> completedRun r1 = None
         \<and> nextRun r2 = None \<and> completedRun r2 = Some c
         \<and> status c = Completed \<and> length (completedStepIds_rec c) = 3)"
proof -
  let ?cmds = "[(demoRuntime, ''done''), (demoRuntime, ''Complete current step''),
                (otherRuntime, ''next'')]"
  have d: "distinct (map step_id (steps incident))"
    by (simp add: incident_def mkStep_def)
  have n3: "length (steps incident) = 3"
    by (simp add: incident_def)
  have l: "length ?cmds = length (steps incident)"
    by (simp add: n3)
  have c1: "classify ''done'' = Advance"
    by code_simp
  have c2: "classify ''Complete current step'' = Advance"
    by code_simp
  have c3: "classify ''next'' = Advance"
    by code_simp
  have c: "\<forall>c \<in> set ?cmds. classify (snd c) = Advance"
    using c1 c2 c3 by simp
  define S where "S = session demoCatalog ?cmds (Some (freshRun incident ''t''))"
  note th = complete_all_steps [OF d l c, of demoCatalog "''t''", unfolded n3, folded S_def]
  from th have len: "length S = 3"
    by blast
  from th have each: "\<And>i. i < 3 \<Longrightarrow> \<exists>res. S ! i = Inr res
                \<and> (if i + 1 < 3
                 then nextRun res = Some (runAfter incident ''t'' (i + 1))
                      \<and> currentStepIndex (runAfter incident ''t'' (i + 1)) = int i + 1
                      \<and> completedRun res = None
                 else nextRun res = None
                      \<and> (\<exists>c. completedRun res = Some c \<and> status c = Completed
                             \<and> workflow_rec c = incident
                             \<and> length (completedStepIds_rec c) = 3))"
    by blast
  from each [of 0] have "\<exists>res. S ! 0 = Inr res
      \<and> nextRun res = Some (runAfter incident ''t'' 1) \<and> completedRun res = None"
    by auto
  then obtain r0 where r0: "S ! 0 = Inr r0"
    "nextRun r0 = Some (runAfter incident ''t'' 1)" "completedRun r0 = None"
    by blast
  from each [of 1] have "\<exists>res. S ! 1 = Inr res
      \<and> nextRun res = Some (runAfter incident ''t'' 2) \<and> completedRun res = None"
    by (auto simp: numeral_2_eq_2)
  then obtain r1 where r1: "S ! 1 = Inr r1"
    "nextRun r1 = Some (runAfter incident ''t'' 2)" "completedRun r1 = None"
    by blast
  from each [of 2] have "\<exists>res. S ! 2 = Inr res \<and> nextRun res = None
      \<and> (\<exists>c. completedRun res = Some c \<and> status c = Completed
             \<and> length (completedStepIds_rec c) = 3)"
    by auto
  then obtain r2 cr where r2: "S ! 2 = Inr r2" "nextRun r2 = None"
    "completedRun r2 = Some cr" "status cr = Completed" "length (completedStepIds_rec cr) = 3"
    by blast
  from list_of_length_3 [OF len] r0(1) r1(1) r2(1) have "S = [Inr r0, Inr r1, Inr r2]"
    by simp
  with r0 r1 r2 have "\<exists>r0 r1 r2 c. S = [Inr r0, Inr r1, Inr r2]
         \<and> nextRun r0 = Some (runAfter incident ''t'' 1) \<and> completedRun r0 = None
         \<and> nextRun r1 = Some (runAfter incident ''t'' 2) \<and> completedRun r1 = None
         \<and> nextRun r2 = None \<and> completedRun r2 = Some c
         \<and> status c = Completed \<and> length (completedStepIds_rec c) = 3"
    by blast
  with d l c1 c2 c3 show ?thesis
    unfolding S_def by blast
qed

subsection \<open>Progress percentages\<close>










text \<open>Where the percentage stands in the status message and in the run summary.\<close>

lemma includesStr_startsWith: "startsWith s p \<Longrightarrow> includesStr s p"
  by (cases s) (auto elim: startsWith.elims)

lemma includesStr_append: "includesStr (a @ p @ b) p"
proof (induction a)
  case Nil
  show ?case
    using includesStr_startsWith [OF startsWith_append [of p b]] by simp
next
  case (Cons x a)
  then show ?case by simp
qed

lemma buildStatusMessage_renders_percent:
  assumes "buildStatusMessage run = Inr s"
  shows "startsWith s
           (name (workflow run) @ '' is ''
            @ numberToString (percent (length (completedStepIds run)) (length (steps (workflow run))))
            @ ''% complete ('')"
proof -
  let ?p = "name (workflow run) @ '' is ''
            @ numberToString (percent (length (completedStepIds run)) (length (steps (workflow run))))
            @ ''% complete (''"
  from assms obtain r where "s = ?p @ r"
    unfolding buildStatusMessage_def Let_def
    by (auto simp del: append.simps numberToString.simps simp add: append_assoc
             split: option.splits)
  then show ?thesis
    using startsWith_append [of ?p r] by simp
qed

lemma formatRunSummary_renders_percent:
  "includesStr (formatRunSummary rt record)
     (''Progress: '' @ showNat (length (completedStepIds_rec record)) @ ''/''
      @ showNat (length (steps (workflow_rec record))) @ '' steps (''
      @ numberToString (percent (length (completedStepIds_rec record))
                                (length (steps (workflow_rec record)))) @ ''%)'')"
proof -
  let ?P = "''Progress: '' @ showNat (length (completedStepIds_rec record)) @ ''/''
      @ showNat (length (steps (workflow_rec record))) @ '' steps (''
      @ numberToString (percent (length (completedStepIds_rec record))
                                (length (steps (workflow_rec record)))) @ ''%)''"
  have ne: "summaryHeader record \<noteq> []"
    by (rule summaryHeader_nonempty)
  obtain s1 s2 s4 s5 where f: "formatRunSummary rt record
      = join nl (filterBoolean [summaryHeader record, s1, s2, ?P, s4, s5])"
    and n: "s1 \<noteq> []" "s2 \<noteq> []" "?P \<noteq> []" "s4 \<noteq> []" "s5 \<noteq> []"
    unfolding formatRunSummary_def Let_def by (auto simp del: numberToString.simps)
  from ne n have "filterBoolean [summaryHeader record, s1, s2, ?P, s4, s5]
                  = [summaryHeader record, s1, s2, ?P, s4, s5]"
    unfolding filterBoolean_def by (simp del: append.simps)
  with f have "formatRunSummary rt record
      = (summaryHeader record @ nl @ s1 @ nl @ s2 @ nl) @ ?P @ (nl @ s4 @ nl @ s5)"
    by (simp del: append.simps add: append_assoc)
  then show ?thesis
    using includesStr_append [of "summaryHeader record @ nl @ s1 @ nl @ s2 @ nl" ?P "nl @ s4 @ nl @ s5"]
    by simp
qed









end
